theory Spec2Isabelle
  imports Main "HOL-Library.Word"
begin

unbundle bit_operations_syntax

section \<open>Strings, bytes and the codecs the program calls\<close>

text \<open>
  A Python \<open>str\<close> is modelled as a \<open>string\<close>: a \<open>char\<close> stands for the code
  point of the same number, so the model covers text over the code points 0..255. Every
  such string has a UTF-8 encoding, as every string has that reaches the program (the
  HTTP layer and the SQLite driver both produce their strings by strict UTF-8 decoding).
  \<open>bytes\<close> objects are lists of 8-bit words.
\<close>

type_synonym byte = "8 word"
type_synonym bytes = "byte list"
type_synonym u32 = "32 word"

datatype py_error = DatabaseError | ValueError | UnicodeDecodeError

text \<open>\<open>bytes(s, encoding='utf-8')\<close>: one byte below U+0080, two bytes from there to U+00FF.\<close>

definition utf8_char :: "char \<Rightarrow> bytes" where
  "utf8_char c =
     (let n = (of_char c :: nat)
      in if n < 128 then [of_nat n] else [of_nat (192 + n div 64), of_nat (128 + n mod 64)])"

definition utf8_encode :: "string \<Rightarrow> bytes" where
  "utf8_encode s = concat (map utf8_char s)"

text \<open>
  \<open>str.strip()\<close> without argument removes the leading and trailing characters for which
  \<open>str.isspace\<close> holds; below U+0100 these are the twelve code points listed.
\<close>

definition isspace :: "char \<Rightarrow> bool" where
  "isspace c \<longleftrightarrow> (of_char c :: nat) \<in> {9, 10, 11, 12, 13, 28, 29, 30, 31, 32, 133, 160}"

definition strip :: "string \<Rightarrow> string" where
  "strip s = rev (dropWhile isspace (rev (dropWhile isspace s)))"

text \<open>
  \<open>binascii.hexlify\<close> writes two ASCII digits per byte, taken from the table
  \<open>0123456789abcdef\<close>; \<open>bytes.decode('ascii')\<close> raises \<open>UnicodeDecodeError\<close> on a byte
  above 127.
\<close>

definition hexdigits :: bytes where
  "hexdigits = [48, 49, 50, 51, 52, 53, 54, 55, 56, 57, 97, 98, 99, 100, 101, 102]"

definition hexlify :: "bytes \<Rightarrow> bytes" where
  "hexlify bs = concat (map (\<lambda>b. [hexdigits ! (unat b div 16), hexdigits ! (unat b mod 16)]) bs)"

definition decode_ascii :: "bytes \<Rightarrow> py_error + string" where
  "decode_ascii bs =
     (if list_all (\<lambda>b. unat b < 128) bs then Inr (map (\<lambda>b. char_of (unat b)) bs)
      else Inl UnicodeDecodeError)"

section \<open>The key derivation of \<open>hashlib\<close>\<close>

text \<open>
  \<open>hashlib.pbkdf2_hmac('sha256', password, salt, iterations, dklen)\<close> is the library's
  PBKDF2 (RFC 8018) over HMAC (RFC 2104) with SHA-256 (FIPS 180-4). It is written out
  here, so that the length and the shape of the derived key are facts about a function
  rather than assumptions about a parameter.
\<close>

definition be_to_u32 :: "bytes \<Rightarrow> u32" where
  "be_to_u32 bs = foldl (\<lambda>acc b. push_bit 8 acc OR ucast b) 0 bs"

definition u32_to_be :: "u32 \<Rightarrow> bytes" where
  "u32_to_be w = [ucast (drop_bit 24 w), ucast (drop_bit 16 w), ucast (drop_bit 8 w), ucast w]"

definition u64_to_be :: "64 word \<Rightarrow> bytes" where
  "u64_to_be w = map (\<lambda>i. ucast (drop_bit (8 * (7 - i)) w)) [0..<8]"

definition rotr :: "nat \<Rightarrow> u32 \<Rightarrow> u32" where
  "rotr n w = drop_bit n w OR push_bit (32 - n) w"

definition ch :: "u32 \<Rightarrow> u32 \<Rightarrow> u32 \<Rightarrow> u32" where
  "ch x y z = (x AND y) XOR (NOT x AND z)"

definition maj :: "u32 \<Rightarrow> u32 \<Rightarrow> u32 \<Rightarrow> u32" where
  "maj x y z = (x AND y) XOR (x AND z) XOR (y AND z)"

definition bsig0 :: "u32 \<Rightarrow> u32" where
  "bsig0 x = rotr 2 x XOR rotr 13 x XOR rotr 22 x"

definition bsig1 :: "u32 \<Rightarrow> u32" where
  "bsig1 x = rotr 6 x XOR rotr 11 x XOR rotr 25 x"

definition ssig0 :: "u32 \<Rightarrow> u32" where
  "ssig0 x = rotr 7 x XOR rotr 18 x XOR drop_bit 3 x"

definition ssig1 :: "u32 \<Rightarrow> u32" where
  "ssig1 x = rotr 17 x XOR rotr 19 x XOR drop_bit 10 x"

definition K256 :: "u32 list" where
  "K256 =
   [0x428A2F98, 0x71374491, 0xB5C0FBCF, 0xE9B5DBA5, 0x3956C25B, 0x59F111F1, 0x923F82A4, 0xAB1C5ED5,
    0xD807AA98, 0x12835B01, 0x243185BE, 0x550C7DC3, 0x72BE5D74, 0x80DEB1FE, 0x9BDC06A7, 0xC19BF174,
    0xE49B69C1, 0xEFBE4786, 0x0FC19DC6, 0x240CA1CC, 0x2DE92C6F, 0x4A7484AA, 0x5CB0A9DC, 0x76F988DA,
    0x983E5152, 0xA831C66D, 0xB00327C8, 0xBF597FC7, 0xC6E00BF3, 0xD5A79147, 0x06CA6351, 0x14292967,
    0x27B70A85, 0x2E1B2138, 0x4D2C6DFC, 0x53380D13, 0x650A7354, 0x766A0ABB, 0x81C2C92E, 0x92722C85,
    0xA2BFE8A1, 0xA81A664B, 0xC24B8B70, 0xC76C51A3, 0xD192E819, 0xD6990624, 0xF40E3585, 0x106AA070,
    0x19A4C116, 0x1E376C08, 0x2748774C, 0x34B0BCB5, 0x391C0CB3, 0x4ED8AA4A, 0x5B9CCA4F, 0x682E6FF3,
    0x748F82EE, 0x78A5636F, 0x84C87814, 0x8CC70208, 0x90BEFFFA, 0xA4506CEB, 0xBEF9A3F7, 0xC67178F2]"

type_synonym sha256_state = "u32 \<times> u32 \<times> u32 \<times> u32 \<times> u32 \<times> u32 \<times> u32 \<times> u32"

definition sha256_init :: sha256_state where
  "sha256_init =
   (0x6a09e667, 0xbb67ae85, 0x3c6ef372, 0xa54ff53a, 0x510e527f, 0x9b05688c, 0x1f83d9ab, 0x5be0cd19)"

definition sha256_pad :: "bytes \<Rightarrow> bytes" where
  "sha256_pad m =
     m @ [0x80] @ replicate ((119 - length m mod 64) mod 64) 0 @ u64_to_be (of_nat (8 * length m))"

definition chunks :: "nat \<Rightarrow> 'a list \<Rightarrow> 'a list list" where
  "chunks n xs = map (\<lambda>i. take n (drop (n * i) xs)) [0..<length xs div n]"

fun extend_schedule :: "nat \<Rightarrow> u32 list \<Rightarrow> u32 list" where
  "extend_schedule 0 w = w"
| "extend_schedule (Suc n) w =
     (let t = length w
      in extend_schedule n
           (w @ [ssig1 (w ! (t - 2)) + w ! (t - 7) + ssig0 (w ! (t - 15)) + w ! (t - 16)]))"

definition schedule :: "bytes \<Rightarrow> u32 list" where
  "schedule block = extend_schedule 48 (map be_to_u32 (chunks 4 block))"

definition sha256_round :: "sha256_state \<Rightarrow> u32 \<times> u32 \<Rightarrow> sha256_state" where
  "sha256_round s kw =
     (case s of (a, b, c, d, e, f, g, h) \<Rightarrow>
      case kw of (k, w) \<Rightarrow>
        let t1 = h + bsig1 e + ch e f g + k + w;
            t2 = bsig0 a + maj a b c
        in (t1 + t2, a, b, c, d + t1, e, f, g))"

definition sha256_compress :: "sha256_state \<Rightarrow> bytes \<Rightarrow> sha256_state" where
  "sha256_compress s block =
     (case s of (a0, b0, c0, d0, e0, f0, g0, h0) \<Rightarrow>
      case foldl sha256_round s (zip K256 (schedule block)) of (a, b, c, d, e, f, g, h) \<Rightarrow>
        (a0 + a, b0 + b, c0 + c, d0 + d, e0 + e, f0 + f, g0 + g, h0 + h))"

definition sha256 :: "bytes \<Rightarrow> bytes" where
  "sha256 m =
     (case foldl sha256_compress sha256_init (chunks 64 (sha256_pad m)) of
        (a, b, c, d, e, f, g, h) \<Rightarrow> concat (map u32_to_be [a, b, c, d, e, f, g, h]))"

definition hmac_sha256 :: "bytes \<Rightarrow> bytes \<Rightarrow> bytes" where
  "hmac_sha256 key msg =
     (let k0 = (if 64 < length key then sha256 key else key);
          k = k0 @ replicate (64 - length k0) 0
      in sha256 (map (\<lambda>b. b XOR 0x5c) k @ sha256 (map (\<lambda>b. b XOR 0x36) k @ msg)))"

text \<open>
  One block of the derived key: the first value is the HMAC of the salt followed by the
  block index (four bytes, big-endian), each further value is the HMAC of the one
  before, all under the password as key, and the block is the exclusive or of the
  \<open>iterations\<close> values.
\<close>

fun pbkdf2_rounds :: "bytes \<Rightarrow> nat \<Rightarrow> bytes \<Rightarrow> bytes \<Rightarrow> bytes" where
  "pbkdf2_rounds password 0 u t = t"
| "pbkdf2_rounds password (Suc n) u t =
     (let u' = hmac_sha256 password u in pbkdf2_rounds password n u' (map2 (XOR) t u'))"

definition pbkdf2_block :: "bytes \<Rightarrow> bytes \<Rightarrow> nat \<Rightarrow> nat \<Rightarrow> bytes" where
  "pbkdf2_block password salt_bytes iterations i =
     (let u1 = hmac_sha256 password (salt_bytes @ u32_to_be (of_nat i))
      in pbkdf2_rounds password (iterations - 1) u1 u1)"

definition pbkdf2_sha256 :: "bytes \<Rightarrow> bytes \<Rightarrow> nat \<Rightarrow> nat \<Rightarrow> bytes" where
  "pbkdf2_sha256 password salt_bytes iterations dklen =
     take dklen
       (concat (map (pbkdf2_block password salt_bytes iterations) [1..<Suc ((dklen + 31) div 32)]))"

text \<open>
  The library call itself, with its argument checks: \<open>hashlib\<close> raises \<open>ValueError\<close>
  for an iteration count or a key length below 1.
\<close>

definition pbkdf2_hmac_sha256 :: "bytes \<Rightarrow> bytes \<Rightarrow> int \<Rightarrow> int \<Rightarrow> py_error + bytes" where
  "pbkdf2_hmac_sha256 password salt_bytes iterations dklen =
     (if iterations < 1 then Inl ValueError
      else if dklen < 1 then Inl ValueError
      else Inr (pbkdf2_sha256 password salt_bytes (nat iterations) (nat dklen)))"

section \<open>The user store\<close>

text \<open>
  Modelled from the spec: the schema of the \<open>user\<close> relation, which the repository
  reads and does not declare. A row is what \<open>dict_factory\<close> hands to the program: the
  columns that the query and the verification read, under the names of the source
  (\<open>row['salt']\<close>, \<open>row['passwd']\<close>, \<open>result['passwd_hash_algo']\<close>), typed as the
  data model of the specification types its fields, the three flags as the integers the
  query compares them with; no column is NULL.
\<close>

record user_row =
  lower_name :: string
  name :: string
  email :: string
  is_active :: int
  type :: int
  prohibit_login :: int
  passwd_hash_algo :: string
  passwd :: string
  salt :: string

text \<open>
  The connection: the rows of \<open>user\<close> in the order in which the store yields them, the
  DB-API call at which the driver raises (if any), the number of open cursors, and the
  bind parameters of the statements submitted so far. The program submits one kind of
  statement only, the \<open>SELECT\<close> of \<open>check_pass\<close>.
\<close>

datatype db_call = Cursor | Execute | Fetchone

record connection =
  user_table :: "user_row list"
  failing :: "db_call option"
  open_cursors :: nat
  submitted :: "string list"

text \<open>
  The condition of the query,
  \<^verbatim>\<open>(lower_name = :un OR name = :un OR email = :un) AND is_active = 1 AND type = 0 AND prohibit_login = 0\<close>.
  SQLite compares text under its default collation, \<open>BINARY\<close>: two strings are equal
  when they are the same sequence of characters.
\<close>

definition where_clause :: "string \<Rightarrow> user_row \<Rightarrow> bool" where
  "where_clause un r \<longleftrightarrow>
     (lower_name r = un \<or> name r = un \<or> email r = un)
     \<and> is_active r = 1 \<and> type r = 0 \<and> prohibit_login r = 0"

definition cursor :: "connection \<Rightarrow> py_error + connection" where
  "cursor conn =
     (if failing conn = Some Cursor then Inl DatabaseError
      else Inr (conn\<lparr>open_cursors := Suc (open_cursors conn)\<rparr>))"

definition execute :: "connection \<Rightarrow> string \<Rightarrow> (py_error + user_row list) \<times> connection" where
  "execute conn un =
     (let conn' = conn\<lparr>submitted := submitted conn @ [un]\<rparr>
      in if failing conn = Some Execute then (Inl DatabaseError, conn')
         else (Inr (filter (where_clause un) (user_table conn)), conn'))"

definition fetchone :: "connection \<Rightarrow> user_row list \<Rightarrow> py_error + user_row option" where
  "fetchone conn rows =
     (if failing conn = Some Fetchone then Inl DatabaseError
      else Inr (case rows of [] \<Rightarrow> None | r # _ \<Rightarrow> Some r))"

definition close :: "connection \<Rightarrow> connection" where
  "close conn = conn\<lparr>open_cursors := open_cursors conn - 1\<rparr>"

section \<open>The verification\<close>

datatype log_level = DEBUG | INFO | WARNING

type_synonym log_record = "log_level \<times> string"

text \<open>
  \<open>check_gitea_pbkdf2(passwd, row, debug)\<close>; the candidate password is called \<open>pw\<close>
  here, since \<open>passwd\<close> is the column. The result is the returned value or the
  exception raised, with the records handed to the logger.
\<close>

definition check_gitea_pbkdf2 :: "string \<Rightarrow> user_row \<Rightarrow> bool \<Rightarrow> (py_error + bool) \<times> log_record list" where
  "check_gitea_pbkdf2 pw row debug =
     (case pbkdf2_hmac_sha256 (utf8_encode pw) (utf8_encode (salt row)) 10000 50 of
        Inl e \<Rightarrow> (Inl e, [])
      | Inr hashed \<Rightarrow>
          (case decode_ascii (hexlify hashed) of
             Inl e \<Rightarrow> (Inl e, [])
           | Inr hx \<Rightarrow>
               (Inr (hx = passwd row),
                if debug then [(DEBUG, ''hash result: '' @ hx @ '' / expected: '' @ passwd row)]
                else [])))"

text \<open>
  \<open>check_pass(connection, username, passwd, debug)\<close>: the returned value or the exception
  that leaves the function, the log records in the order of the calls, and the
  connection afterwards. The cursor is created before the \<open>try\<close>; every path through the
  \<open>try\<close> block ends in the \<open>finally\<close> clause, which closes it.
\<close>

definition check_pass ::
  "connection \<Rightarrow> string \<Rightarrow> string \<Rightarrow> bool \<Rightarrow> (py_error + bool) \<times> log_record list \<times> connection" where
  "check_pass conn username pw debug =
     (let log0 = [(INFO, ''Handling auth request for '' @ username)]
      in case cursor conn of
           Inl e \<Rightarrow> (Inl e, log0, conn)
         | Inr c1 \<Rightarrow>
             (case execute c1 (strip username) of
                (Inl e, c2) \<Rightarrow> (Inl e, log0, close c2)
              | (Inr rows, c2) \<Rightarrow>
                  (case fetchone c2 rows of
                     Inl e \<Rightarrow> (Inl e, log0, close c2)
                   | Inr None \<Rightarrow>
                       (Inr False, log0 @ [(INFO, ''No matching user found.'')], close c2)
                   | Inr (Some result) \<Rightarrow>
                       (let log1 = log0 @ [(INFO, ''Found matching user in database.'')]
                        in if passwd_hash_algo result = ''pbkdf2'' then
                             (let log2 = log1 @ [(INFO, ''Attempt to hash password.'')]
                              in case check_gitea_pbkdf2 pw result debug of
                                   (Inl e, lg) \<Rightarrow> (Inl e, log2 @ lg, close c2)
                                 | (Inr True, lg) \<Rightarrow>
                                     (Inr True,
                                      log2 @ lg @ [(INFO, ''Successfully authenticated.'')],
                                      close c2)
                                 | (Inr False, lg) \<Rightarrow>
                                     (Inr False, log2 @ lg @ [(INFO, ''Hash check failed.'')],
                                      close c2))
                           else
                             (Inr False,
                              log1 @ [(WARNING,
                                       ''Found unknown hashing algo '' @ passwd_hash_algo result
                                       @ '' in database!'')],
                              close c2)))))"

text \<open>The three parts of a call's result.\<close>

definition outcome :: "(py_error + bool) \<times> log_record list \<times> connection \<Rightarrow> py_error + bool" where
  "outcome res = fst res"

definition logged :: "(py_error + bool) \<times> log_record list \<times> connection \<Rightarrow> log_record list" where
  "logged res = fst (snd res)"

definition connection_after :: "(py_error + bool) \<times> log_record list \<times> connection \<Rightarrow> connection" where
  "connection_after res = snd (snd res)"

section \<open>The vocabulary of the specification\<close>

text \<open>
  Lowercase hexadecimal as the specification words it: two digits per byte, the digits
  \<open>0..9\<close> and \<open>a..f\<close>.
\<close>

definition lower_hex_digit :: "nat \<Rightarrow> char" where
  "lower_hex_digit n = ''0123456789abcdef'' ! n"

definition lower_hex :: "bytes \<Rightarrow> string" where
  "lower_hex bs = concat (map (\<lambda>b. [lower_hex_digit (unat b div 16), lower_hex_digit (unat b mod 16)]) bs)"

definition is_lower_hex :: "string \<Rightarrow> bool" where
  "is_lower_hex s = list_all (\<lambda>c. c \<in> set ''0123456789abcdef'') s"

text \<open>
  The lowercase form of an identifier (\<open>str.lower\<close> on the code points below U+0100):
  the specification's rule for the normalized name compares with it.
\<close>

definition lower_char :: "char \<Rightarrow> char" where
  "lower_char c =
     (let n = (of_char c :: nat)
      in if (65 \<le> n \<and> n \<le> 90) \<or> (192 \<le> n \<and> n \<le> 222 \<and> n \<noteq> 215) then char_of (n + 32) else c)"

definition lower :: "string \<Rightarrow> string" where
  "lower s = map lower_char s"

text \<open>The first row the query yields for an identifier: the lookup of the specification.\<close>

definition find_user :: "connection \<Rightarrow> string \<Rightarrow> user_row option" where
  "find_user conn identifier = List.find (where_clause (strip identifier)) (user_table conn)"

section \<open>Sample data\<close>

text \<open>
  A store of three accounts: a standard user with a \<open>pbkdf2\<close> hash (the hash that
  \<open>hashlib\<close> derives from the password \<open>correct-password\<close> and the salt \<open>abc123\<close>),
  an organization, and a standard user whose hash was made by another scheme.
\<close>

definition alice :: user_row where
  "alice =
     \<lparr>lower_name = ''alice'', name = ''Alice'', email = ''alice@example.org'',
      is_active = 1, type = 0, prohibit_login = 0, passwd_hash_algo = ''pbkdf2'',
      passwd = ''32899c6e53c633d9d7fda5558068f1ceba5bc54dd8c7bf6fdf472da5d06265380b9e120e6fde4e79f5c352c3d04bf75b12d7'',
      salt = ''abc123''\<rparr>"

definition acme :: user_row where
  "acme =
     \<lparr>lower_name = ''acme'', name = ''Acme'', email = ''office@acme.example'',
      is_active = 1, type = 1, prohibit_login = 0, passwd_hash_algo = ''pbkdf2'',
      passwd = ''32899c6e53c633d9d7fda5558068f1ceba5bc54dd8c7bf6fdf472da5d06265380b9e120e6fde4e79f5c352c3d04bf75b12d7'',
      salt = ''abc123''\<rparr>"

definition carol :: user_row where
  "carol =
     \<lparr>lower_name = ''carol'', name = ''carol'', email = ''carol@example.org'',
      is_active = 1, type = 0, prohibit_login = 0, passwd_hash_algo = ''argon2'',
      passwd = ''32899c6e53c633d9d7fda5558068f1ceba5bc54dd8c7bf6fdf472da5d06265380b9e120e6fde4e79f5c352c3d04bf75b12d7'',
      salt = ''abc123''\<rparr>"

text \<open>The first account again, its stored hash written with capital digits.\<close>

definition uppercase_alice :: user_row where
  "uppercase_alice =
     alice\<lparr>passwd := ''32899C6E53C633D9D7FDA5558068F1CEBA5BC54DD8C7BF6FDF472DA5D06265380B9E120E6FDE4E79F5C352C3D04BF75B12D7''\<rparr>"

definition example_store :: connection where
  "example_store =
     \<lparr>user_table = [alice, acme, carol], failing = None, open_cursors = 0, submitted = []\<rparr>"

section \<open>The derived key and its encoding\<close>

lemma length_u32_to_be: "length (u32_to_be w) = 4"
  by (simp add: u32_to_be_def)

lemma length_sha256: "length (sha256 m) = 32"
  by (simp add: sha256_def length_u32_to_be split: prod.splits)

lemma length_hmac_sha256: "length (hmac_sha256 key msg) = 32"
  by (simp add: hmac_sha256_def Let_def length_sha256)

lemma length_pbkdf2_rounds:
  "length t = 32 \<Longrightarrow> length (pbkdf2_rounds password n u t) = 32"
  by (induction n arbitrary: u t) (simp_all add: Let_def length_hmac_sha256)

lemma length_pbkdf2_block: "length (pbkdf2_block password salt_bytes iterations i) = 32"
  by (simp add: pbkdf2_block_def Let_def length_pbkdf2_rounds length_hmac_sha256)

lemma length_concat_blocks:
  "length (concat (map (pbkdf2_block password salt_bytes iterations) idxs)) = 32 * length idxs"
  by (induction idxs) (simp_all add: length_pbkdf2_block)

lemma length_pbkdf2_sha256: "length (pbkdf2_sha256 password salt_bytes iterations dklen) = dklen"
proof -
  have "dklen \<le> 32 * ((dklen + 31) div 32)"
    by arith
  then show ?thesis
    by (simp add: pbkdf2_sha256_def length_concat_blocks)
qed

lemma pbkdf2_hmac_sha256_call:
  "pbkdf2_hmac_sha256 password salt_bytes 10000 50 = Inr (pbkdf2_sha256 password salt_bytes 10000 50)"
  by (simp add: pbkdf2_hmac_sha256_def)

lemma hexdigits_table:
  "list_all (\<lambda>n. unat (hexdigits ! n) < 128 \<and> char_of (unat (hexdigits ! n)) = lower_hex_digit n
      \<and> lower_hex_digit n \<in> set ''0123456789abcdef'') [0..<16]"
  by code_simp

lemma hexdigit_facts:
  assumes "n < 16"
  shows hexdigit_ascii: "unat (hexdigits ! n) < 128"
    and hexdigit_char: "char_of (unat (hexdigits ! n)) = lower_hex_digit n"
    and lower_hex_digit_range: "lower_hex_digit n \<in> set ''0123456789abcdef''"
proof -
  from assms have "n \<in> set [0..<16]" by simp
  with hexdigits_table show "unat (hexdigits ! n) < 128"
    and "char_of (unat (hexdigits ! n)) = lower_hex_digit n"
    and "lower_hex_digit n \<in> set ''0123456789abcdef''"
    unfolding list_all_iff by blast+
qed

lemma byte_high_nibble: "unat (b :: byte) div 16 < 16"
proof -
  have "unat b < 256" using unsigned_less [of b] by simp
  then show ?thesis by simp
qed

lemma hexlify_ascii: "list_all (\<lambda>b. unat b < 128) (hexlify bs)"
  by (induction bs) (simp_all add: hexlify_def hexdigit_ascii byte_high_nibble)

lemma map_char_hexlify: "map (\<lambda>b. char_of (unat b)) (hexlify bs) = lower_hex bs"
  by (induction bs) (simp_all add: hexlify_def lower_hex_def hexdigit_char byte_high_nibble)

lemma decode_ascii_hexlify: "decode_ascii (hexlify bs) = Inr (lower_hex bs)"
  by (simp add: decode_ascii_def hexlify_ascii map_char_hexlify)

lemma length_lower_hex: "length (lower_hex bs) = 2 * length bs"
  by (induction bs) (simp_all add: lower_hex_def)

lemma is_lower_hex_lower_hex: "is_lower_hex (lower_hex bs)"
  by (induction bs)
    (simp_all add: is_lower_hex_def lower_hex_def lower_hex_digit_range [simplified] byte_high_nibble)


section \<open>What a call computes\<close>

lemma check_gitea_pbkdf2_eq:
  "check_gitea_pbkdf2 pw row debug =
     (Inr (lower_hex (pbkdf2_sha256 (utf8_encode pw) (utf8_encode (salt row)) 10000 50) = passwd row),
      if debug
      then [(DEBUG, ''hash result: ''
               @ lower_hex (pbkdf2_sha256 (utf8_encode pw) (utf8_encode (salt row)) 10000 50)
               @ '' / expected: '' @ passwd row)]
      else [])"
  by (simp add: check_gitea_pbkdf2_def pbkdf2_hmac_sha256_call decode_ascii_hexlify)

lemma first_of_filter:
  "(case filter P xs of [] \<Rightarrow> None | r # _ \<Rightarrow> Some r) = List.find P xs"
  by (induction xs) simp_all

lemma outcome_check_pass:
  "outcome (check_pass conn username pw debug) =
     (if failing conn \<noteq> None then Inl DatabaseError
      else case find_user conn username of
             None \<Rightarrow> Inr False
           | Some r \<Rightarrow>
               Inr (passwd_hash_algo r = ''pbkdf2''
                    \<and> lower_hex (pbkdf2_sha256 (utf8_encode pw) (utf8_encode (salt r)) 10000 50)
                        = passwd r))"
proof (cases "failing conn")
  case None
  then show ?thesis
    by (simp add: outcome_def check_pass_def cursor_def execute_def fetchone_def close_def
        find_user_def Let_def check_gitea_pbkdf2_eq first_of_filter [symmetric]
        split: list.splits bool.splits)
next
  case (Some c)
  then show ?thesis
    by (cases c)
      (simp_all add: outcome_def check_pass_def cursor_def execute_def fetchone_def Let_def)
qed

lemma connection_after_check_pass:
  "connection_after (check_pass conn username pw debug) =
     (if failing conn = Some Cursor then conn
      else conn\<lparr>submitted := submitted conn @ [strip username]\<rparr>)"
proof (cases "failing conn")
  case None
  then show ?thesis
    by (simp add: connection_after_def check_pass_def cursor_def execute_def fetchone_def close_def
        Let_def check_gitea_pbkdf2_eq split: list.splits bool.splits)
next
  case (Some c)
  then show ?thesis
    by (cases c)
      (simp_all add: connection_after_def check_pass_def cursor_def execute_def fetchone_def
        close_def Let_def)
qed

section \<open>Stripping\<close>

lemma dropWhile_spaces_append:
  "list_all P ws \<Longrightarrow> dropWhile P (ws @ xs) = dropWhile P xs"
  by (induction ws) simp_all

lemma strip_all_spaces:
  assumes "list_all isspace s"
  shows "strip s = []"
proof -
  from assms have empty: "dropWhile isspace s = []"
    by (simp add: dropWhile_eq_Nil_conv list_all_iff)
  show ?thesis
    unfolding strip_def empty by simp
qed

lemma strip_padded:
  assumes "list_all isspace before" and "list_all isspace after"
  shows "strip (before @ s @ after) = strip s"
proof (cases "list_all isspace s")
  case True
  with assms have "list_all isspace (before @ s @ after)"
    by simp
  with True show ?thesis
    by (simp only: strip_all_spaces)
next
  case False
  then obtain x where x: "x \<in> set s" "\<not> isspace x"
    by (auto simp: list_all_iff)
  have "dropWhile isspace (before @ s @ after) = dropWhile isspace s @ after"
    using assms(1) x by (simp add: dropWhile_spaces_append)
  moreover have "list_all isspace (rev after)"
    using assms(2) by simp
  ultimately show ?thesis
    by (simp add: strip_def dropWhile_spaces_append)
qed

lemma dropWhile_rstrip:
  "dropWhile P (rev (dropWhile P (rev (dropWhile P s)))) = rev (dropWhile P (rev (dropWhile P s)))"
proof (cases "dropWhile P s")
  case Nil
  show ?thesis
    unfolding Nil by simp
next
  case (Cons x t)
  then have "\<not> P x"
    using hd_dropWhile [of P s] by (metis list.sel(1) list.simps(3))
  then show ?thesis
    using Cons by (simp add: dropWhile_append3)
qed

lemma strip_strip: "strip (strip s) = strip s"
  by (simp add: strip_def dropWhile_rstrip)

lemma logged_check_pass_debug:
  "filter (\<lambda>l. fst l \<noteq> DEBUG) (logged (check_pass conn username pw True)) =
     logged (check_pass conn username pw False)"
proof (cases "failing conn")
  case None
  then show ?thesis
    by (simp add: logged_def check_pass_def cursor_def execute_def fetchone_def close_def
        Let_def check_gitea_pbkdf2_eq split: list.splits bool.splits)
next
  case (Some c)
  then show ?thesis
    by (cases c)
      (simp_all add: logged_def check_pass_def cursor_def execute_def fetchone_def Let_def)
qed

section \<open>The lookup\<close>

lemma find_user_None:
  "find_user conn username = None \<longleftrightarrow>
     (\<forall>r\<in>set (user_table conn). \<not> where_clause (strip username) r)"
  by (auto simp: find_user_def find_None_iff)

lemma find_user_SomeD:
  "find_user conn username = Some r \<Longrightarrow> r \<in> set (user_table conn) \<and> where_clause (strip username) r"
  by (auto simp: find_user_def find_Some_iff)

lemma find_user_first:
  assumes "list_all (\<lambda>x. \<not> where_clause (strip username) x) earlier"
    and "where_clause (strip username) r"
  shows "find_user (conn\<lparr>user_table := earlier @ r # later\<rparr>) username = Some r"
  using assms by (induction earlier) (simp_all add: find_user_def)

lemma find_user_strip: "find_user conn (strip username) = find_user conn username"
  by (simp add: find_user_def strip_strip)

lemma find_user_padded:
  "list_all isspace before \<Longrightarrow> list_all isspace after \<Longrightarrow>
   find_user conn (before @ username @ after) = find_user conn username"
  by (simp add: find_user_def strip_padded)

lemma find_user_example_alice: "find_user example_store '' alice '' = Some alice"
  by (simp add: find_user_def example_store_def strip_def isspace_def where_clause_def alice_def)

lemma find_user_example_carol: "find_user example_store ''carol'' = Some carol"
  by (simp add: find_user_def example_store_def strip_def isspace_def where_clause_def
      alice_def acme_def carol_def)

lemma logged_check_pass:
  assumes "failing conn = None"
  shows "logged (check_pass conn username pw debug) =
     (INFO, ''Handling auth request for '' @ username) #
     (case find_user conn username of
        None \<Rightarrow> [(INFO, ''No matching user found.'')]
      | Some r \<Rightarrow>
          (INFO, ''Found matching user in database.'') #
          (if passwd_hash_algo r = ''pbkdf2'' then
             (INFO, ''Attempt to hash password.'') #
             (if debug
              then [(DEBUG, ''hash result: ''
                       @ lower_hex (pbkdf2_sha256 (utf8_encode pw) (utf8_encode (salt r)) 10000 50)
                       @ '' / expected: '' @ passwd r)]
              else []) @
             [(INFO,
               if lower_hex (pbkdf2_sha256 (utf8_encode pw) (utf8_encode (salt r)) 10000 50) = passwd r
               then ''Successfully authenticated.'' else ''Hash check failed.'')]
           else [(WARNING, ''Found unknown hashing algo '' @ passwd_hash_algo r @ '' in database!'')]))"
  using assms
  by (simp add: logged_def check_pass_def cursor_def execute_def fetchone_def close_def
      find_user_def Let_def check_gitea_pbkdf2_eq first_of_filter [symmetric]
      split: list.splits bool.splits)

lemma found_logged:
  assumes "failing conn = None"
  shows "((INFO, ''Found matching user in database.'') \<in> set (logged (check_pass conn username pw debug)))
           = (find_user conn username \<noteq> None)"
  by (cases "find_user conn username") (simp_all add: logged_check_pass [OF assms])

lemma not_found_logged:
  assumes "failing conn = None"
  shows "((INFO, ''No matching user found.'') \<in> set (logged (check_pass conn username pw debug)))
           = (find_user conn username = None)"
  by (cases "find_user conn username") (simp_all add: logged_check_pass [OF assms])

lemma where_clause_fields:
  "where_clause un =
     (\<lambda>r. (lower_name r = un \<or> name r = un \<or> email r = un)
          \<and> is_active r = 1 \<and> type r = 0 \<and> prohibit_login r = 0)"
  by (rule ext) (simp add: where_clause_def)

lemma find_user_fields:
  "find_user conn username =
     List.find (\<lambda>r. (lower_name r = strip username \<or> name r = strip username \<or> email r = strip username)
          \<and> is_active r = 1 \<and> type r = 0 \<and> prohibit_login r = 0) (user_table conn)"
  by (simp add: find_user_def where_clause_fields)

lemma find_user_exists:
  "(find_user conn username \<noteq> None) =
     (\<exists>r\<in>set (user_table conn).
        (lower_name r = strip username \<or> name r = strip username \<or> email r = strip username)
        \<and> is_active r = 1 \<and> type r = 0 \<and> prohibit_login r = 0)"
  by (auto simp: find_user_None where_clause_def)

section \<open>The claims\<close>

text \<open>
  C1. For a record tagged \<open>pbkdf2\<close> that the lookup yields, the verification returns
  true exactly when the lowercase hexadecimal encoding of the key that PBKDF2-HMAC-SHA-256
  derives from the UTF-8 bytes of the candidate password, with the UTF-8 bytes of the
  record's salt string as salt, 10,000 iterations and 50 bytes of output, is the stored
  hash, character for character; that encoding has 100 lowercase hexadecimal digits.
\<close>

theorem pbkdf2_verification:
  assumes "failing conn = None"
    and "find_user conn username = Some r"
    and "passwd_hash_algo r = ''pbkdf2''"
  shows "outcome (check_pass conn username pw debug) =
           Inr (lower_hex (pbkdf2_sha256 (utf8_encode pw) (utf8_encode (salt r)) 10000 50) = passwd r)
         \<and> fst (check_gitea_pbkdf2 pw r debug) =
           Inr (lower_hex (pbkdf2_sha256 (utf8_encode pw) (utf8_encode (salt r)) 10000 50) = passwd r)
         \<and> length (lower_hex (pbkdf2_sha256 (utf8_encode pw) (utf8_encode (salt r)) 10000 50)) = 100
         \<and> is_lower_hex (lower_hex (pbkdf2_sha256 (utf8_encode pw) (utf8_encode (salt r)) 10000 50))"
  using assms
  by (simp add: outcome_check_pass check_gitea_pbkdf2_eq length_lower_hex length_pbkdf2_sha256
      is_lower_hex_lower_hex)

theorem pbkdf2_verification_witness:
  "failing example_store = None
   \<and> find_user example_store '' alice '' = Some alice
   \<and> passwd_hash_algo alice = ''pbkdf2''
   \<and> outcome (check_pass example_store '' alice '' ''correct-password'' False) =
       Inr (lower_hex (pbkdf2_sha256 (utf8_encode ''correct-password'') (utf8_encode ''abc123'') 10000 50)
            = passwd alice)"
proof -
  have healthy: "failing example_store = None"
    by (simp add: example_store_def)
  have algo: "passwd_hash_algo alice = ''pbkdf2''"
    by (simp add: alice_def)
  have "salt alice = ''abc123''"
    by (simp add: alice_def)
  with pbkdf2_verification [OF healthy find_user_example_alice algo, of "''correct-password''" False]
    healthy find_user_example_alice algo
  show ?thesis
    by simp
qed

text \<open>
  C2. When every stored record that matches the identifier in its normalized name, its
  raw name or its email is inactive, not of the standard type 0, or prohibited from
  logging in (in particular when no record matches at all), the verification returns
  false, whatever the candidate password.
\<close>

theorem no_eligible_match_rejected:
  assumes "failing conn = None"
    and "\<forall>r\<in>set (user_table conn).
           lower_name r = strip username \<or> name r = strip username \<or> email r = strip username
           \<longrightarrow> is_active r \<noteq> 1 \<or> type r \<noteq> 0 \<or> prohibit_login r \<noteq> 0"
  shows "outcome (check_pass conn username pw debug) = Inr False"
proof -
  from assms(2) have "\<forall>r\<in>set (user_table conn). \<not> where_clause (strip username) r"
    by (auto simp: where_clause_def)
  then have "find_user conn username = None"
    by (simp add: find_user_None)
  with assms(1) show ?thesis
    by (simp add: outcome_check_pass)
qed

theorem no_eligible_match_rejected_witness:
  "failing example_store = None
   \<and> name acme = strip ''Acme''
   \<and> type acme \<noteq> 0
   \<and> outcome (check_pass example_store ''Acme'' ''correct-password'' False) = Inr False"
proof -
  have healthy: "failing example_store = None"
    by (simp add: example_store_def)
  have stripped: "strip ''Acme'' = ''Acme''"
    by (simp add: strip_def isspace_def)
  have ineligible:
    "\<forall>r\<in>set (user_table example_store).
       lower_name r = strip ''Acme'' \<or> name r = strip ''Acme'' \<or> email r = strip ''Acme''
       \<longrightarrow> is_active r \<noteq> 1 \<or> type r \<noteq> 0 \<or> prohibit_login r \<noteq> 0"
    by (simp add: stripped example_store_def alice_def acme_def carol_def)
  from no_eligible_match_rejected [OF healthy ineligible, of "''correct-password''" False] stripped
  show ?thesis
    by (simp add: example_store_def acme_def)
qed

text \<open>
  C3, as stated, fails: the query compares the normalized name with the identifier as it
  was typed. The normalized name of the first sample account is the lowercase form of
  \<open>ALICE\<close>, the account is eligible, yet \<open>ALICE\<close> matches no row and is rejected.
\<close>

theorem normalized_name_not_lowercased_counterexample:
  "lower_name alice = lower ''ALICE''
   \<and> lower_name alice \<noteq> ''ALICE''
   \<and> name alice \<noteq> ''ALICE''
   \<and> email alice \<noteq> ''ALICE''
   \<and> is_active alice = 1 \<and> type alice = 0 \<and> prohibit_login alice = 0
   \<and> alice \<in> set (user_table example_store)
   \<and> \<not> where_clause (strip ''ALICE'') alice
   \<and> find_user example_store ''ALICE'' = None
   \<and> outcome (check_pass example_store ''ALICE'' ''correct-password'' False) = Inr False"
proof -
  have stripped: "strip ''ALICE'' = ''ALICE''"
    by (simp add: strip_def isspace_def)
  have lowered: "lower ''ALICE'' = ''alice''"
    by code_simp
  have none: "find_user example_store ''ALICE'' = None"
    by (simp add: find_user_def stripped example_store_def where_clause_def alice_def acme_def carol_def)
  have healthy: "failing example_store = None"
    by (simp add: example_store_def)
  have "outcome (check_pass example_store ''ALICE'' ''correct-password'' False) = Inr False"
    by (simp add: outcome_check_pass healthy none)
  with none lowered stripped show ?thesis
    by (simp add: example_store_def alice_def where_clause_def)
qed

text \<open>
  C3, amended. With a working store, \<open>check_pass\<close> finds a user (it logs that it found
  one) exactly when some eligible record equals the stripped identifier, character for
  character, in its normalized name, its raw name or its email. So an eligible record
  whose normalized name equals the stripped identifier is found, also when neither its
  raw name nor its email equals the identifier, and as the first such record it decides
  the result; when no record equals the stripped identifier in one of the three fields,
  the call logs that no user matches and returns false. The parameter of the query is
  the stripped identifier as typed: the comparison is sensitive to letter case.
\<close>

theorem normalized_name_exact_match:
  assumes "failing conn = None"
  shows
    "((INFO, ''Found matching user in database.'') \<in> set (logged (check_pass conn username pw debug)))
       = (\<exists>x\<in>set (user_table conn).
            (lower_name x = strip username \<or> name x = strip username \<or> email x = strip username)
            \<and> is_active x = 1 \<and> type x = 0 \<and> prohibit_login x = 0)
     \<and> (r \<in> set (user_table conn) \<and> is_active r = 1 \<and> type r = 0 \<and> prohibit_login r = 0
          \<and> lower_name r = strip username
        \<longrightarrow> (INFO, ''Found matching user in database.'')
              \<in> set (logged (check_pass conn username pw debug))
            \<and> (INFO, ''No matching user found.'')
              \<notin> set (logged (check_pass conn username pw debug)))
     \<and> (user_table conn = earlier @ r # later
          \<and> list_all (\<lambda>x. lower_name x \<noteq> strip username \<and> name x \<noteq> strip username
                           \<and> email x \<noteq> strip username) earlier
          \<and> is_active r = 1 \<and> type r = 0 \<and> prohibit_login r = 0
          \<and> lower_name r = strip username
        \<longrightarrow> outcome (check_pass conn username pw debug) =
              Inr (passwd_hash_algo r = ''pbkdf2''
                   \<and> lower_hex (pbkdf2_sha256 (utf8_encode pw) (utf8_encode (salt r)) 10000 50)
                       = passwd r))
     \<and> (list_all (\<lambda>x. lower_name x \<noteq> strip username \<and> name x \<noteq> strip username
                       \<and> email x \<noteq> strip username) (user_table conn)
        \<longrightarrow> outcome (check_pass conn username pw debug) = Inr False
            \<and> logged (check_pass conn username pw debug) =
                [(INFO, ''Handling auth request for '' @ username),
                 (INFO, ''No matching user found.'')])
     \<and> submitted (connection_after (check_pass conn username pw debug))
         = submitted conn @ [strip username]"
proof (intro conjI impI)
  show "((INFO, ''Found matching user in database.'') \<in> set (logged (check_pass conn username pw debug)))
       = (\<exists>x\<in>set (user_table conn).
            (lower_name x = strip username \<or> name x = strip username \<or> email x = strip username)
            \<and> is_active x = 1 \<and> type x = 0 \<and> prohibit_login x = 0)"
    by (simp only: found_logged [OF assms] find_user_exists)
next
  assume eligible: "r \<in> set (user_table conn) \<and> is_active r = 1 \<and> type r = 0
    \<and> prohibit_login r = 0 \<and> lower_name r = strip username"
  then have found: "find_user conn username \<noteq> None"
    unfolding find_user_exists by blast
  then show "(INFO, ''Found matching user in database.'')
      \<in> set (logged (check_pass conn username pw debug))"
    by (simp add: found_logged [OF assms])
  from found show "(INFO, ''No matching user found.'')
      \<notin> set (logged (check_pass conn username pw debug))"
    by (simp add: not_found_logged [OF assms])
next
  assume first: "user_table conn = earlier @ r # later
    \<and> list_all (\<lambda>x. lower_name x \<noteq> strip username \<and> name x \<noteq> strip username
                     \<and> email x \<noteq> strip username) earlier
    \<and> is_active r = 1 \<and> type r = 0 \<and> prohibit_login r = 0
    \<and> lower_name r = strip username"
  then have "list_all (\<lambda>x. \<not> where_clause (strip username) x) earlier"
    and "where_clause (strip username) r"
    by (auto simp: where_clause_def list_all_iff)
  then have "find_user (conn\<lparr>user_table := earlier @ r # later\<rparr>) username = Some r"
    by (rule find_user_first)
  moreover from first have "conn\<lparr>user_table := earlier @ r # later\<rparr> = conn"
    by simp
  ultimately have "find_user conn username = Some r"
    by simp
  with assms show "outcome (check_pass conn username pw debug) =
      Inr (passwd_hash_algo r = ''pbkdf2''
           \<and> lower_hex (pbkdf2_sha256 (utf8_encode pw) (utf8_encode (salt r)) 10000 50) = passwd r)"
    by (simp add: outcome_check_pass)
next
  assume none: "list_all (\<lambda>x. lower_name x \<noteq> strip username \<and> name x \<noteq> strip username
                       \<and> email x \<noteq> strip username) (user_table conn)"
  then have absent: "find_user conn username = None"
    by (auto simp: find_user_None where_clause_def list_all_iff)
  with assms show "outcome (check_pass conn username pw debug) = Inr False"
    by (simp add: outcome_check_pass)
  show "logged (check_pass conn username pw debug) =
      [(INFO, ''Handling auth request for '' @ username), (INFO, ''No matching user found.'')]"
    unfolding logged_check_pass [OF assms] absent by simp
next
  from assms show "submitted (connection_after (check_pass conn username pw debug))
      = submitted conn @ [strip username]"
    by (simp add: connection_after_check_pass)
qed

theorem normalized_name_exact_match_witness:
  "failing example_store = None
   \<and> alice \<in> set (user_table example_store)
   \<and> is_active alice = 1 \<and> type alice = 0 \<and> prohibit_login alice = 0
   \<and> lower_name alice = strip ''alice''
   \<and> name alice \<noteq> strip ''alice'' \<and> email alice \<noteq> strip ''alice''
   \<and> (INFO, ''Found matching user in database.'')
        \<in> set (logged (check_pass example_store ''alice'' ''correct-password'' False))
   \<and> (INFO, ''No matching user found.'')
        \<notin> set (logged (check_pass example_store ''alice'' ''correct-password'' False))
   \<and> submitted (connection_after (check_pass example_store ''alice'' ''correct-password'' False))
        = [''alice'']"
proof -
  have stripped: "strip ''alice'' = ''alice''"
    by (simp add: strip_def isspace_def)
  have healthy: "failing example_store = None" and fresh: "submitted example_store = []"
    by (simp_all add: example_store_def)
  have member: "alice \<in> set (user_table example_store)"
    by (simp add: example_store_def)
  have flags: "is_active alice = 1 \<and> type alice = 0 \<and> prohibit_login alice = 0"
    by (simp add: alice_def)
  have normalized: "lower_name alice = strip ''alice''"
    by (simp add: stripped alice_def)
  have others: "name alice \<noteq> strip ''alice'' \<and> email alice \<noteq> strip ''alice''"
    by (simp add: stripped alice_def)
  from normalized_name_exact_match [OF healthy, where r = alice and username = "''alice''"
      and pw = "''correct-password''" and debug = False]
    member flags normalized
  have "(INFO, ''Found matching user in database.'')
          \<in> set (logged (check_pass example_store ''alice'' ''correct-password'' False))
        \<and> (INFO, ''No matching user found.'')
          \<notin> set (logged (check_pass example_store ''alice'' ''correct-password'' False))
        \<and> submitted (connection_after (check_pass example_store ''alice'' ''correct-password'' False))
          = submitted example_store @ [strip ''alice'']"
    by blast
  with healthy member flags normalized others stripped fresh show ?thesis
    by simp
qed

text \<open>
  C4. When the record that the lookup yields carries an algorithm tag other than
  \<open>pbkdf2\<close>, the verification returns false, a value and not an error, whatever the
  candidate password and the stored hash.
\<close>

theorem unsupported_algorithm_rejected:
  assumes "failing conn = None"
    and "find_user conn username = Some r"
    and "passwd_hash_algo r \<noteq> ''pbkdf2''"
  shows "outcome (check_pass conn username pw debug) = Inr False"
  using assms by (simp add: outcome_check_pass)

theorem unsupported_algorithm_rejected_witness:
  "failing example_store = None
   \<and> find_user example_store ''carol'' = Some carol
   \<and> passwd_hash_algo carol \<noteq> ''pbkdf2''
   \<and> outcome (check_pass example_store ''carol'' ''correct-password'' True) = Inr False"
proof -
  have healthy: "failing example_store = None"
    by (simp add: example_store_def)
  have algo: "passwd_hash_algo carol \<noteq> ''pbkdf2''"
    by (simp add: carol_def)
  from unsupported_algorithm_rejected [OF healthy find_user_example_carol algo, of "''correct-password''" True]
    healthy find_user_example_carol algo
  show ?thesis
    by simp
qed

text \<open>
  C5. The verification raises exactly when a call to the store fails, and then the
  store's error leaves the function; with a working store the result is a value: true
  when the lookup yields a \<open>pbkdf2\<close> record whose stored hash is the encoding of the
  derived key, false for no record, another algorithm or another password.
\<close>

theorem raises_iff_store_fails:
  "(\<exists>e. outcome (check_pass conn username pw debug) = Inl e) = (failing conn \<noteq> None)
   \<and> (failing conn \<noteq> None \<longrightarrow> outcome (check_pass conn username pw debug) = Inl DatabaseError)
   \<and> (failing conn = None \<longrightarrow>
        outcome (check_pass conn username pw debug) =
          Inr (\<exists>r. find_user conn username = Some r \<and> passwd_hash_algo r = ''pbkdf2''
                   \<and> lower_hex (pbkdf2_sha256 (utf8_encode pw) (utf8_encode (salt r)) 10000 50)
                       = passwd r))"
  by (cases "find_user conn username") (auto simp: outcome_check_pass)

theorem raises_iff_store_fails_witness:
  "outcome (check_pass (example_store\<lparr>failing := Some Execute\<rparr>) ''alice'' ''correct-password'' False)
     = Inl DatabaseError
   \<and> outcome (check_pass example_store ''carol'' ''correct-password'' False) = Inr False
   \<and> outcome (check_pass example_store ''nobody'' ''correct-password'' False) = Inr False"
proof -
  have "failing (example_store\<lparr>failing := Some Execute\<rparr>) \<noteq> None"
    by simp
  with raises_iff_store_fails
    [of "example_store\<lparr>failing := Some Execute\<rparr>" "''alice''" "''correct-password''" False]
  have broken:
    "outcome (check_pass (example_store\<lparr>failing := Some Execute\<rparr>) ''alice'' ''correct-password'' False)
       = Inl DatabaseError"
    by blast
  have healthy: "failing example_store = None"
    by (simp add: example_store_def)
  have nobody: "find_user example_store ''nobody'' = None"
    by (simp add: find_user_def example_store_def strip_def isspace_def where_clause_def
        alice_def acme_def carol_def)
  have algo: "passwd_hash_algo carol \<noteq> ''pbkdf2''"
    by (simp add: carol_def)
  from raises_iff_store_fails [of example_store "''carol''" "''correct-password''" False]
    healthy find_user_example_carol algo
  have unsupported: "outcome (check_pass example_store ''carol'' ''correct-password'' False) = Inr False"
    by simp
  from raises_iff_store_fails [of example_store "''nobody''" "''correct-password''" False]
    healthy nobody
  have unknown: "outcome (check_pass example_store ''nobody'' ''correct-password'' False) = Inr False"
    by simp
  from broken unsupported unknown show ?thesis
    by simp
qed

text \<open>
  C6. \<open>check_pass\<close> strips the identifier before the query. For an identifier with
  whitespace before and after it, the parameter of the submitted query is the stripped
  identifier, the result is the one that the first eligible record equal to the stripped
  identifier gives, and a user is found exactly when such a record exists; so the padded
  identifier matches what the stripped one matches. The stripped, the unstripped and the
  padded identifier give the same result and leave the same connection.
\<close>

theorem identifier_stripped:
  "outcome (check_pass conn (strip username) pw debug) = outcome (check_pass conn username pw debug)
   \<and> connection_after (check_pass conn (strip username) pw debug)
       = connection_after (check_pass conn username pw debug)
   \<and> (list_all isspace before \<and> list_all isspace after \<longrightarrow>
        submitted (connection_after (check_pass conn (before @ username @ after) pw debug))
          = submitted conn @ (if failing conn = Some Cursor then [] else [strip username])
        \<and> outcome (check_pass conn (before @ username @ after) pw debug)
          = (if failing conn \<noteq> None then Inl DatabaseError
             else case List.find
                    (\<lambda>r. (lower_name r = strip username \<or> name r = strip username
                          \<or> email r = strip username)
                         \<and> is_active r = 1 \<and> type r = 0 \<and> prohibit_login r = 0)
                    (user_table conn) of
                    None \<Rightarrow> Inr False
                  | Some r \<Rightarrow>
                      Inr (passwd_hash_algo r = ''pbkdf2''
                           \<and> lower_hex (pbkdf2_sha256 (utf8_encode pw) (utf8_encode (salt r)) 10000 50)
                               = passwd r))
        \<and> (failing conn = None \<longrightarrow>
             ((INFO, ''Found matching user in database.'')
                \<in> set (logged (check_pass conn (before @ username @ after) pw debug)))
             = (\<exists>r\<in>set (user_table conn).
                  (lower_name r = strip username \<or> name r = strip username
                   \<or> email r = strip username)
                  \<and> is_active r = 1 \<and> type r = 0 \<and> prohibit_login r = 0))
        \<and> find_user conn (before @ username @ after) = find_user conn username
        \<and> outcome (check_pass conn (before @ username @ after) pw debug)
            = outcome (check_pass conn username pw debug)
        \<and> connection_after (check_pass conn (before @ username @ after) pw debug)
            = connection_after (check_pass conn username pw debug))"
proof (intro conjI impI)
  show "outcome (check_pass conn (strip username) pw debug) = outcome (check_pass conn username pw debug)"
    by (simp add: outcome_check_pass find_user_strip)
  show "connection_after (check_pass conn (strip username) pw debug)
       = connection_after (check_pass conn username pw debug)"
    by (simp add: connection_after_check_pass strip_strip)
next
  assume spaces: "list_all isspace before \<and> list_all isspace after"
  then have stripped: "strip (before @ username @ after) = strip username"
    by (simp add: strip_padded)
  from spaces have lookup: "find_user conn (before @ username @ after) = find_user conn username"
    by (simp add: find_user_padded)
  show "submitted (connection_after (check_pass conn (before @ username @ after) pw debug))
          = submitted conn @ (if failing conn = Some Cursor then [] else [strip username])"
    by (simp add: connection_after_check_pass stripped)
  show "outcome (check_pass conn (before @ username @ after) pw debug)
          = (if failing conn \<noteq> None then Inl DatabaseError
             else case List.find
                    (\<lambda>r. (lower_name r = strip username \<or> name r = strip username
                          \<or> email r = strip username)
                         \<and> is_active r = 1 \<and> type r = 0 \<and> prohibit_login r = 0)
                    (user_table conn) of
                    None \<Rightarrow> Inr False
                  | Some r \<Rightarrow>
                      Inr (passwd_hash_algo r = ''pbkdf2''
                           \<and> lower_hex (pbkdf2_sha256 (utf8_encode pw) (utf8_encode (salt r)) 10000 50)
                               = passwd r))"
    unfolding outcome_check_pass find_user_fields stripped by (rule refl)
  show "find_user conn (before @ username @ after) = find_user conn username"
    by (rule lookup)
  show "outcome (check_pass conn (before @ username @ after) pw debug)
            = outcome (check_pass conn username pw debug)"
    by (simp add: outcome_check_pass lookup)
  show "connection_after (check_pass conn (before @ username @ after) pw debug)
            = connection_after (check_pass conn username pw debug)"
    by (simp add: connection_after_check_pass stripped)
  assume healthy: "failing conn = None"
  show "((INFO, ''Found matching user in database.'')
                \<in> set (logged (check_pass conn (before @ username @ after) pw debug)))
             = (\<exists>r\<in>set (user_table conn).
                  (lower_name r = strip username \<or> name r = strip username
                   \<or> email r = strip username)
                  \<and> is_active r = 1 \<and> type r = 0 \<and> prohibit_login r = 0)"
    by (simp only: found_logged [OF healthy] lookup find_user_exists)
qed

theorem identifier_stripped_witness:
  "list_all isspace ''  '' \<and> list_all isspace [CHR 0x09, CHR 0x0A]
   \<and> submitted (connection_after
        (check_pass example_store (''  '' @ ''alice'' @ [CHR 0x09, CHR 0x0A]) ''correct-password'' False))
       = [''alice'']
   \<and> (INFO, ''Found matching user in database.'')
        \<in> set (logged
             (check_pass example_store (''  '' @ ''alice'' @ [CHR 0x09, CHR 0x0A]) ''correct-password'' False))
   \<and> outcome (check_pass example_store (''  '' @ ''alice'' @ [CHR 0x09, CHR 0x0A]) ''correct-password'' False)
       = outcome (check_pass example_store ''alice'' ''correct-password'' False)"
proof -
  have spaces: "list_all isspace ''  '' \<and> list_all isspace [CHR 0x09, CHR 0x0A]"
    by (simp add: isspace_def)
  have stripped: "strip ''alice'' = ''alice''"
    by (simp add: strip_def isspace_def)
  have healthy: "failing example_store = None" and fresh: "submitted example_store = []"
    by (simp_all add: example_store_def)
  have eligible:
    "\<exists>r\<in>set (user_table example_store).
       (lower_name r = strip ''alice'' \<or> name r = strip ''alice'' \<or> email r = strip ''alice'')
       \<and> is_active r = 1 \<and> type r = 0 \<and> prohibit_login r = 0"
    by (simp add: stripped example_store_def alice_def)
  from identifier_stripped [where conn = example_store and username = "''alice''"
      and pw = "''correct-password''" and debug = False and before = "''  ''"
      and after = "[CHR 0x09, CHR 0x0A]"]
    spaces healthy eligible
  have "submitted (connection_after
          (check_pass example_store (''  '' @ ''alice'' @ [CHR 0x09, CHR 0x0A]) ''correct-password'' False))
         = submitted example_store @ (if failing example_store = Some Cursor then [] else [strip ''alice''])
     \<and> (INFO, ''Found matching user in database.'')
          \<in> set (logged
               (check_pass example_store (''  '' @ ''alice'' @ [CHR 0x09, CHR 0x0A]) ''correct-password'' False))
     \<and> outcome (check_pass example_store (''  '' @ ''alice'' @ [CHR 0x09, CHR 0x0A]) ''correct-password'' False)
         = outcome (check_pass example_store ''alice'' ''correct-password'' False)"
    by blast
  with spaces healthy fresh stripped show ?thesis
    by simp
qed

text \<open>
  C7. When the store yields several rows for an identifier, the first one decides: with
  no matching row before it, the result is the one for a store that holds this row
  alone, determined by its algorithm tag, salt and stored hash, whatever rows follow.
\<close>

theorem first_row_decides:
  assumes "list_all (\<lambda>x. \<not> where_clause (strip username) x) earlier"
    and "where_clause (strip username) r"
  shows "find_user (conn\<lparr>user_table := earlier @ r # later\<rparr>) username = Some r
         \<and> outcome (check_pass (conn\<lparr>user_table := earlier @ r # later\<rparr>) username pw debug)
             = outcome (check_pass (conn\<lparr>user_table := [r]\<rparr>) username pw debug)
         \<and> outcome (check_pass (conn\<lparr>user_table := earlier @ r # later\<rparr>) username pw debug)
             = (if failing conn \<noteq> None then Inl DatabaseError
                else Inr (passwd_hash_algo r = ''pbkdf2''
                          \<and> lower_hex (pbkdf2_sha256 (utf8_encode pw) (utf8_encode (salt r)) 10000 50)
                              = passwd r))"
proof -
  have whole: "find_user (conn\<lparr>user_table := earlier @ r # later\<rparr>) username = Some r"
    using assms by (rule find_user_first)
  have "list_all (\<lambda>x. \<not> where_clause (strip username) x) []"
    by simp
  from find_user_first [OF this assms(2), where conn = conn and later = "[]"]
  have alone: "find_user (conn\<lparr>user_table := [r]\<rparr>) username = Some r"
    by simp
  from whole alone show ?thesis
    by (simp add: outcome_check_pass)
qed

theorem first_row_decides_witness:
  "list_all (\<lambda>x. \<not> where_clause (strip ''alice@example.org'') x) [acme]
   \<and> where_clause (strip ''alice@example.org'') (carol\<lparr>email := ''alice@example.org''\<rparr>)
   \<and> where_clause (strip ''alice@example.org'') alice
   \<and> outcome (check_pass
        (example_store\<lparr>user_table := [acme] @ carol\<lparr>email := ''alice@example.org''\<rparr> # [alice]\<rparr>)
        ''alice@example.org'' ''correct-password'' False) = Inr False"
proof -
  have stripped: "strip ''alice@example.org'' = ''alice@example.org''"
    by (simp add: strip_def isspace_def)
  have earlier: "list_all (\<lambda>x. \<not> where_clause (strip ''alice@example.org'') x) [acme]"
    by (simp add: stripped where_clause_def acme_def)
  have first: "where_clause (strip ''alice@example.org'') (carol\<lparr>email := ''alice@example.org''\<rparr>)"
    by (simp add: stripped where_clause_def carol_def)
  have second: "where_clause (strip ''alice@example.org'') alice"
    by (simp add: stripped where_clause_def alice_def)
  have healthy: "failing example_store = None"
    by (simp add: example_store_def)
  have algo: "passwd_hash_algo (carol\<lparr>email := ''alice@example.org''\<rparr>) \<noteq> ''pbkdf2''"
    by (simp add: carol_def)
  from first_row_decides [OF earlier first, where conn = example_store and later = "[alice]"
      and pw = "''correct-password''" and debug = False]
  have "outcome (check_pass
          (example_store\<lparr>user_table := [acme] @ carol\<lparr>email := ''alice@example.org''\<rparr> # [alice]\<rparr>)
          ''alice@example.org'' ''correct-password'' False)
        = (if failing example_store \<noteq> None then Inl DatabaseError
           else Inr (passwd_hash_algo (carol\<lparr>email := ''alice@example.org''\<rparr>) = ''pbkdf2''
                     \<and> lower_hex (pbkdf2_sha256 (utf8_encode ''correct-password'')
                          (utf8_encode (salt (carol\<lparr>email := ''alice@example.org''\<rparr>))) 10000 50)
                         = passwd (carol\<lparr>email := ''alice@example.org''\<rparr>)))"
    by blast
  with healthy algo have "outcome (check_pass
          (example_store\<lparr>user_table := [acme] @ carol\<lparr>email := ''alice@example.org''\<rparr> # [alice]\<rparr>)
          ''alice@example.org'' ''correct-password'' False) = Inr False"
    by simp
  with earlier first second show ?thesis
    by blast
qed

text \<open>
  C8. A call leaves the store as it was: the rows of the relation and the number of open
  cursors are unchanged, and the one statement submitted is the query, with the
  stripped identifier as its parameter (none when the cursor cannot be created).
\<close>

theorem store_unchanged:
  "user_table (connection_after (check_pass conn username pw debug)) = user_table conn
   \<and> failing (connection_after (check_pass conn username pw debug)) = failing conn
   \<and> open_cursors (connection_after (check_pass conn username pw debug)) = open_cursors conn
   \<and> submitted (connection_after (check_pass conn username pw debug)) =
       submitted conn @ (if failing conn = Some Cursor then [] else [strip username])"
  by (simp add: connection_after_check_pass)

theorem store_unchanged_witness:
  "connection_after (check_pass example_store '' alice '' ''correct-password'' False) =
     example_store\<lparr>submitted := [''alice'']\<rparr>"
proof -
  have stripped: "strip '' alice '' = ''alice''"
    by (simp add: strip_def isspace_def)
  have healthy: "failing example_store = None" and fresh: "submitted example_store = []"
    by (simp_all add: example_store_def)
  from store_unchanged [of example_store "'' alice ''" "''correct-password''" False]
    stripped healthy fresh
  show ?thesis
    by (simp add: connection.equality)
qed

text \<open>
  C9. When the stored hash of a \<open>pbkdf2\<close> record is not a string of exactly 100
  lowercase hexadecimal digits, the verification returns false for every candidate
  password.
\<close>

theorem malformed_stored_hash_rejected:
  assumes "failing conn = None"
    and "find_user conn username = Some r"
    and "passwd_hash_algo r = ''pbkdf2''"
    and "\<not> (length (passwd r) = 100 \<and> is_lower_hex (passwd r))"
  shows "outcome (check_pass conn username pw debug) = Inr False
         \<and> fst (check_gitea_pbkdf2 pw r debug) = Inr False"
proof -
  let ?hex = "lower_hex (pbkdf2_sha256 (utf8_encode pw) (utf8_encode (salt r)) 10000 50)"
  have "length ?hex = 100 \<and> is_lower_hex ?hex"
    by (simp add: length_lower_hex length_pbkdf2_sha256 is_lower_hex_lower_hex)
  with assms(4) have "?hex \<noteq> passwd r"
    by auto
  with assms(1-3) show ?thesis
    by (simp add: outcome_check_pass check_gitea_pbkdf2_eq)
qed

theorem malformed_stored_hash_rejected_witness:
  "length (passwd uppercase_alice) = 100
   \<and> \<not> is_lower_hex (passwd uppercase_alice)
   \<and> outcome (check_pass (example_store\<lparr>user_table := [uppercase_alice]\<rparr>) ''alice''
        ''correct-password'' False) = Inr False"
proof -
  have healthy: "failing (example_store\<lparr>user_table := [uppercase_alice]\<rparr>) = None"
    by (simp add: example_store_def)
  have found: "find_user (example_store\<lparr>user_table := [uppercase_alice]\<rparr>) ''alice'' = Some uppercase_alice"
    by (simp add: find_user_def strip_def isspace_def where_clause_def uppercase_alice_def alice_def)
  have algo: "passwd_hash_algo uppercase_alice = ''pbkdf2''"
    by (simp add: uppercase_alice_def alice_def)
  have long: "length (passwd uppercase_alice) = 100"
    by (simp add: uppercase_alice_def)
  have upper: "\<not> is_lower_hex (passwd uppercase_alice)"
    by (simp add: uppercase_alice_def is_lower_hex_def)
  then have malformed:
    "\<not> (length (passwd uppercase_alice) = 100 \<and> is_lower_hex (passwd uppercase_alice))"
    by simp
  from malformed_stored_hash_rejected [OF healthy found algo malformed, of "''correct-password''" False]
    long upper
  show ?thesis
    by simp
qed

text \<open>
  C10. The debug flag changes the log only: with and without it a call returns the same
  value or raises the same error and leaves the same connection, and the records logged
  with the flag are those logged without it plus records of level \<open>DEBUG\<close>.
\<close>

theorem debug_flag_irrelevant:
  "outcome (check_pass conn username pw True) = outcome (check_pass conn username pw False)
   \<and> connection_after (check_pass conn username pw True)
       = connection_after (check_pass conn username pw False)
   \<and> filter (\<lambda>l. fst l \<noteq> DEBUG) (logged (check_pass conn username pw True))
       = logged (check_pass conn username pw False)
   \<and> fst (check_gitea_pbkdf2 pw row True) = fst (check_gitea_pbkdf2 pw row False)"
  by (simp add: outcome_check_pass connection_after_check_pass logged_check_pass_debug
      check_gitea_pbkdf2_eq)

theorem debug_flag_irrelevant_witness:
  "outcome (check_pass example_store ''alice'' ''correct-password'' True)
     = outcome (check_pass example_store ''alice'' ''correct-password'' False)
   \<and> outcome (check_pass (example_store\<lparr>failing := Some Fetchone\<rparr>) ''alice'' ''correct-password'' True)
     = outcome (check_pass (example_store\<lparr>failing := Some Fetchone\<rparr>) ''alice'' ''correct-password'' False)"
  using debug_flag_irrelevant [of example_store "''alice''" "''correct-password''" alice]
    debug_flag_irrelevant [of "example_store\<lparr>failing := Some Fetchone\<rparr>" "''alice''"
      "''correct-password''" alice]
  by blast

end
